theory Spec2Isabelle
  imports Main
begin

section \<open>Strings and values\<close>

text \<open>
  The program is \<^verbatim>\<open>forms.py\<close>. Its strings are modelled as \<^typ>\<open>string\<close>, read as ASCII
  text. \<^verbatim>\<open>str.lower()\<close> maps the letters A to Z to a to z and leaves every other
  character as it is; \<^verbatim>\<open>str.replace(" ", "-")\<close> replaces a one-character pattern,
  so it works character by character.
\<close>

definition ascii_uppercase :: string where
  "ascii_uppercase = ''ABCDEFGHIJKLMNOPQRSTUVWXYZ''"

definition ascii_lowercase :: string where
  "ascii_lowercase = ''abcdefghijklmnopqrstuvwxyz''"

definition lower_char :: "char \<Rightarrow> char" where
  "lower_char c =
     (case map_of (zip ascii_uppercase ascii_lowercase) c of None \<Rightarrow> c | Some d \<Rightarrow> d)"

definition lower :: "string \<Rightarrow> string" where
  "lower s = map lower_char s"

definition replace_char :: "char \<Rightarrow> char \<Rightarrow> string \<Rightarrow> string" where
  "replace_char old new s = map (\<lambda>c. if c = old then new else c) s"

text \<open>\<^verbatim>\<open>def slugify(value): return value.replace(" ", "-").lower()\<close>\<close>

definition slugify :: "string \<Rightarrow> string" where
  "slugify v = lower (replace_char (CHR '' '') (CHR ''-'') v)"

text \<open>
  The field \<^verbatim>\<open>value\<close> of a form item is declared \<^verbatim>\<open>str\<close> and is a string when
  the item is built. \<^verbatim>\<open>_run_hooks\<close> assigns to it whatever the called object
  returns, and assignments are not validated: among the objects of the module
  namespace, the typed-dictionary class \<^verbatim>\<open>ConfigDict\<close> returns an empty dictionary
  when it is called with the empty string. So a value is a string or that dictionary.
\<close>

datatype pyval = Str string | EmptyDict

text \<open>What an f-string writes for \<^verbatim>\<open>{x.value}\<close>.\<close>

definition format_value :: "pyval \<Rightarrow> string" where
  "format_value v = (case v of Str s \<Rightarrow> s | EmptyDict \<Rightarrow> ''{}'')"

datatype error = KeyError | TypeError | ValueError | AttributeError | ValidationError

section \<open>The module namespace\<close>

text \<open>
  \<^verbatim>\<open>globals()[hook]\<close> reads the namespace of the module, which holds every name bound
  at its top level: the imports, the constants, \<^verbatim>\<open>slugify\<close>, the three classes, the
  names bound by the script at the end of the file (\<^verbatim>\<open>spec\<close>, \<^verbatim>\<open>forms\<close>,
  \<^verbatim>\<open>forms_as_dict\<close> and the loop variables \<^verbatim>\<open>id\<close> and \<^verbatim>\<open>form\<close>), and the
  attributes the import system sets on a module. A binding is classified by what
  happens when it is called with one positional argument.
\<close>

datatype global =
    Slugify
  | Typed_Dict
  | Model_Class
  | Typing_Alias
  | Data

definition module_globals :: "(string \<times> global) list" where
  "module_globals =
    [(''__name__'', Data), (''__doc__'', Data), (''__package__'', Data),
     (''__loader__'', Data), (''__spec__'', Data), (''__file__'', Data),
     (''__cached__'', Data), (''__builtins__'', Data),
     (''uuid'', Data),
     (''Callable'', Typing_Alias), (''Dict'', Typing_Alias), (''List'', Typing_Alias),
     (''Tuple'', Typing_Alias), (''Union'', Typing_Alias),
     (''frontmatter'', Data),
     (''BaseModel'', Model_Class), (''ConfigDict'', Typed_Dict),
     (''HTML_TYPE'', Data), (''CONTROL_TYPES'', Data), (''RENDER_FUNCTIONS'', Data),
     (''HTML_TEMPLATE'', Data),
     (''slugify'', Slugify),
     (''FormItem'', Model_Class), (''Group'', Model_Class), (''Form'', Model_Class),
     (''spec'', Data), (''forms'', Data), (''forms_as_dict'', Data),
     (''id'', Data), (''form'', Data)]"

definition globals :: "string \<Rightarrow> global option" where
  "globals = map_of module_globals"

text \<open>
  Calling a binding with the current value. \<^verbatim>\<open>slugify\<close> calls \<^verbatim>\<open>replace\<close> on its
  argument, which a dictionary does not have. A typed-dictionary class is called as
  \<^verbatim>\<open>dict\<close> is: it copies a dictionary and reads a string as a sequence of pairs, which
  only the empty string is. A model class takes keyword arguments only, a typing alias
  cannot be instantiated, and a module, set, dictionary, string, list or model instance
  is not callable: all three raise \<^verbatim>\<open>TypeError\<close>.
\<close>

fun call_global :: "global \<Rightarrow> pyval \<Rightarrow> error + pyval" where
  "call_global Slugify (Str s) = Inr (Str (slugify s))"
| "call_global Slugify EmptyDict = Inl AttributeError"
| "call_global Typed_Dict (Str s) = (if s = [] then Inr EmptyDict else Inl ValueError)"
| "call_global Typed_Dict EmptyDict = Inr EmptyDict"
| "call_global Model_Class v = Inl TypeError"
| "call_global Typing_Alias v = Inl TypeError"
| "call_global Data v = Inl TypeError"

section \<open>Form items\<close>

text \<open>
  The fields of \<^verbatim>\<open>FormItem\<close>, in the order of the class: \<^verbatim>\<open>name\<close>, \<^verbatim>\<open>value\<close>,
  \<^verbatim>\<open>placeholder\<close>, \<^verbatim>\<open>html_type\<close>, \<^verbatim>\<open>id\<close>, \<^verbatim>\<open>hooks\<close>. The three classes
  share field names, so the fields \<^verbatim>\<open>name\<close>, \<^verbatim>\<open>value\<close> and \<^verbatim>\<open>id\<close> carry the
  name of their class here.
\<close>

record FormItem =
  item_name :: string
  item_value :: pyval
  placeholder :: string
  html_type :: string
  item_id :: string
  hooks :: "string list"

definition HTML_TYPE :: "string set" where
  "HTML_TYPE = {''text'', ''number'', ''email'', ''submit'', ''textarea''}"

definition CONTROL_TYPES :: "string set" where
  "CONTROL_TYPES = {''submit''}"

text \<open>The five entries of \<^verbatim>\<open>RENDER_FUNCTIONS\<close>, each an f-string over the item.\<close>

definition render_text :: "FormItem \<Rightarrow> string" where
  \<open>render_text x =
     ''<input type="text" id="'' @ item_id x @ ''" name="'' @ item_name x
     @ ''" value="'' @ format_value (item_value x)
     @ ''" placeholder="'' @ placeholder x @ ''">''\<close>

definition render_number :: "FormItem \<Rightarrow> string" where
  \<open>render_number x =
     ''<input type="number" id="'' @ item_id x @ ''" name="'' @ item_name x
     @ ''" value="'' @ format_value (item_value x)
     @ ''" placeholder="'' @ placeholder x @ ''">''\<close>

definition render_email :: "FormItem \<Rightarrow> string" where
  \<open>render_email x =
     ''<input type="email" id="'' @ item_id x @ ''" name="'' @ item_name x
     @ ''" value="'' @ format_value (item_value x)
     @ ''" placeholder="'' @ placeholder x @ ''">''\<close>

definition render_submit :: "FormItem \<Rightarrow> string" where
  \<open>render_submit x =
     ''<button id="'' @ item_id x @ ''" name="'' @ item_name x @ ''">''
     @ format_value (item_value x) @ ''</button>''\<close>

definition render_textarea :: "FormItem \<Rightarrow> string" where
  \<open>render_textarea x =
     ''<textarea id="'' @ item_id x @ ''" name="'' @ item_name x
     @ ''" placeholder="'' @ placeholder x @ ''">''
     @ format_value (item_value x) @ ''</textarea>''\<close>

definition RENDER_FUNCTIONS :: "(string \<times> (FormItem \<Rightarrow> string)) list" where
  "RENDER_FUNCTIONS =
    [(''text'', render_text), (''number'', render_number), (''email'', render_email),
     (''submit'', render_submit), (''textarea'', render_textarea)]"

text \<open>
  \<^verbatim>\<open>FormItem._serialize_as_html\<close>: the arguments of \<^verbatim>\<open>format\<close> are evaluated first,
  so a missing key of \<^verbatim>\<open>RENDER_FUNCTIONS\<close> raises \<^verbatim>\<open>KeyError\<close> before anything is
  written. The template is \<^verbatim>\<open><label for='{id}'>{name}</label>{control}\<close>; an
  apostrophe that ends a string literal is written \<^term>\<open>CHR 0x27\<close>.
\<close>

definition FormItem_serialize_as_html :: "FormItem \<Rightarrow> error + string" where
  \<open>FormItem_serialize_as_html self =
     (case map_of RENDER_FUNCTIONS (html_type self) of
        None \<Rightarrow> Inl KeyError
      | Some render \<Rightarrow>
          Inr (''<label for='' @ [CHR 0x27] @ item_id self @ '''>'' @ item_name self
               @ ''</label>'' @ render self))\<close>

text \<open>
  \<^verbatim>\<open>FormItem._run_hooks\<close>: the loop over \<^verbatim>\<open>self.hooks\<close>. The item is updated in
  place, so an exception leaves the values assigned before it; the result is the item
  as the call leaves it and the exception raised, if any.
\<close>

fun run_hooks_loop :: "string list \<Rightarrow> FormItem \<Rightarrow> FormItem \<times> error option" where
  "run_hooks_loop [] self = (self, None)"
| "run_hooks_loop (hook # rest) self =
     (case globals hook of
        None \<Rightarrow> (self, Some KeyError)
      | Some g \<Rightarrow>
          (case call_global g (item_value self) of
             Inl e \<Rightarrow> (self, Some e)
           | Inr v \<Rightarrow> run_hooks_loop rest (self\<lparr>item_value := v\<rparr>)))"

definition run_hooks :: "FormItem \<Rightarrow> FormItem \<times> error option" where
  "run_hooks self = run_hooks_loop (hooks self) self"

section \<open>Groups and forms\<close>

record Group =
  group_name :: string
  items :: "FormItem list"

text \<open>
  \<^verbatim>\<open>front_matter\<close> is declared \<^verbatim>\<open>str\<close> and defaults to the object that
  \<^verbatim>\<open>frontmatter.loads("")\<close> returns, whose item assignment writes into its metadata
  dictionary. A specification can only supply a string. The metadata maps keys to
  values.
\<close>

type_synonym metadata = "string \<Rightarrow> pyval option"

datatype front_matter = Post metadata | Text string

record Form =
  form_name :: string
  groups :: "Group list"
  front_matter :: front_matter
  form_id :: string

text \<open>
  \<^verbatim>\<open>Form._serialize_as_html\<close>: the inner loop appends the HTML of each item to
  \<^verbatim>\<open>html\<close>, the outer loop opens and closes one \<^verbatim>\<open>div\<close> for each group. An
  exception of an item ends the call.
\<close>

fun items_html_loop :: "FormItem list \<Rightarrow> string \<Rightarrow> error + string" where
  "items_html_loop [] html = Inr html"
| "items_html_loop (item # rest) html =
     (case FormItem_serialize_as_html item of
        Inl e \<Rightarrow> Inl e
      | Inr s \<Rightarrow> items_html_loop rest (html @ s))"

fun groups_html_loop :: "Group list \<Rightarrow> string \<Rightarrow> error + string" where
  "groups_html_loop [] html = Inr html"
| "groups_html_loop (grp # rest) html =
     (case items_html_loop (items grp)
             (html @ ''<div class='group' id='' @ [CHR 0x27] @ group_name grp @ '''>'') of
        Inl e \<Rightarrow> Inl e
      | Inr html' \<Rightarrow> groups_html_loop rest (html' @ ''</div>''))"

definition Form_serialize_as_html :: "Form \<Rightarrow> error + string" where
  "Form_serialize_as_html self =
     (case groups_html_loop (groups self)
             (''<h1>'' @ form_name self @ ''</h1><form action='/'' @ form_id self
              @ ''' method='POST'>'') of
        Inl e \<Rightarrow> Inl e
      | Inr html \<Rightarrow> Inr (html @ ''</form>''))"

text \<open>
  \<^verbatim>\<open>Form._serialize_as_front_matter\<close>. Items and the front matter are updated in
  place, so each loop returns the items as it leaves them, the metadata and the
  exception raised, if any. An item whose \<^verbatim>\<open>html_type\<close> is in \<^verbatim>\<open>CONTROL_TYPES\<close>
  is passed over by \<^verbatim>\<open>continue\<close>. Assigning into a front matter that is a string
  raises \<^verbatim>\<open>TypeError\<close> before the loops start.
\<close>

fun front_matter_items_loop ::
  "FormItem list \<Rightarrow> metadata \<Rightarrow> FormItem list \<times> metadata \<times> error option" where
  "front_matter_items_loop [] md = ([], md, None)"
| "front_matter_items_loop (item # rest) md =
     (if html_type item \<in> CONTROL_TYPES then
        (case front_matter_items_loop rest md of
           (rest', md', e) \<Rightarrow> (item # rest', md', e))
      else
        (case run_hooks item of
           (item', Some e) \<Rightarrow> (item' # rest, md, Some e)
         | (item', None) \<Rightarrow>
             (case front_matter_items_loop rest
                     (md(lower (item_name item') \<mapsto> item_value item')) of
                (rest', md', e) \<Rightarrow> (item' # rest', md', e))))"

fun front_matter_groups_loop ::
  "Group list \<Rightarrow> metadata \<Rightarrow> Group list \<times> metadata \<times> error option" where
  "front_matter_groups_loop [] md = ([], md, None)"
| "front_matter_groups_loop (grp # rest) md =
     (case front_matter_items_loop (items grp) md of
        (items', md', Some e) \<Rightarrow> (grp\<lparr>items := items'\<rparr> # rest, md', Some e)
      | (items', md', None) \<Rightarrow>
          (case front_matter_groups_loop rest md' of
             (rest', md'', e) \<Rightarrow> (grp\<lparr>items := items'\<rparr> # rest', md'', e)))"

definition serialize_as_front_matter :: "Form \<Rightarrow> Form \<times> (error + metadata)" where
  "serialize_as_front_matter self =
     (case front_matter self of
        Text s \<Rightarrow> (self, Inl TypeError)
      | Post md \<Rightarrow>
          (case front_matter_groups_loop (groups self)
                  (md(''form_name'' \<mapsto> Str (form_name self))) of
             (groups', md', Some e) \<Rightarrow>
               (self\<lparr>groups := groups', front_matter := Post md'\<rparr>, Inl e)
           | (groups', md', None) \<Rightarrow>
               (self\<lparr>groups := groups', front_matter := Post md'\<rparr>, Inr md')))"

section \<open>Loading a specification\<close>

text \<open>
  A specification is a nested structure of dictionaries, lists and strings, as parsed
  JSON is. A dictionary is an association list read with \<^const>\<open>map_of\<close>.
\<close>

datatype json =
    JStr string
  | JNum int
  | JBool bool
  | JNull
  | JList "json list"
  | JDict "(string \<times> json) list"

text \<open>
  The defaults of the two \<^verbatim>\<open>id\<close> fields are \<^verbatim>\<open>str(uuid.uuid4())\<close>, evaluated
  once each when the class body runs: two strings fixed for the life of the module. The
  default of \<^verbatim>\<open>front_matter\<close> is one object as well, made when the class body runs;
  its metadata are empty then, and a form built without a front matter starts from the
  metadata that the default holds when the form is built.
\<close>

record defaults =
  default_item_id :: string
  default_form_id :: string
  default_metadata :: metadata

text \<open>
  The classes are pydantic models: building one validates every field against its
  declared type, fills an absent field that has a default, ignores unknown keys and
  raises one \<^verbatim>\<open>ValidationError\<close> when any field fails. A \<^verbatim>\<open>str\<close> field takes a
  string only, a list field a list, a nested model a dictionary.
\<close>

definition required_str :: "(string \<times> json) list \<Rightarrow> string \<Rightarrow> string option" where
  "required_str d key = (case map_of d key of Some (JStr s) \<Rightarrow> Some s | _ \<Rightarrow> None)"

definition optional_str ::
  "(string \<times> json) list \<Rightarrow> string \<Rightarrow> string \<Rightarrow> string option" where
  "optional_str d key dflt =
     (case map_of d key of None \<Rightarrow> Some dflt | Some (JStr s) \<Rightarrow> Some s | Some _ \<Rightarrow> None)"

fun str_list :: "json list \<Rightarrow> string list option" where
  "str_list [] = Some []"
| "str_list (j # js) =
     (case (j, str_list js) of (JStr s, Some ss) \<Rightarrow> Some (s # ss) | _ \<Rightarrow> None)"

definition hooks_field :: "(string \<times> json) list \<Rightarrow> string list option" where
  "hooks_field d =
     (case map_of d ''hooks'' of
        None \<Rightarrow> Some [] | Some (JList js) \<Rightarrow> str_list js | Some _ \<Rightarrow> None)"

definition validate_FormItem :: "defaults \<Rightarrow> json \<Rightarrow> error + FormItem" where
  "validate_FormItem D j =
     (case j of
        JDict d \<Rightarrow>
          (case (required_str d ''name'', optional_str d ''value'' [],
                 optional_str d ''placeholder'' [], optional_str d ''html_type'' ''text'',
                 optional_str d ''id'' (default_item_id D), hooks_field d) of
             (Some n, Some v, Some p, Some t, Some i, Some h) \<Rightarrow>
               Inr \<lparr>item_name = n, item_value = Str v, placeholder = p, html_type = t,
                    item_id = i, hooks = h\<rparr>
           | _ \<Rightarrow> Inl ValidationError)
      | _ \<Rightarrow> Inl ValidationError)"

fun validate_items :: "defaults \<Rightarrow> json list \<Rightarrow> error + FormItem list" where
  "validate_items D [] = Inr []"
| "validate_items D (j # js) =
     (case (validate_FormItem D j, validate_items D js) of
        (Inr item, Inr rest) \<Rightarrow> Inr (item # rest)
      | _ \<Rightarrow> Inl ValidationError)"

definition validate_Group :: "defaults \<Rightarrow> json \<Rightarrow> error + Group" where
  "validate_Group D j =
     (case j of
        JDict d \<Rightarrow>
          (case (required_str d ''name'', map_of d ''items'') of
             (Some n, Some (JList js)) \<Rightarrow>
               (case validate_items D js of
                  Inr its \<Rightarrow> Inr \<lparr>group_name = n, items = its\<rparr>
                | Inl e \<Rightarrow> Inl ValidationError)
           | _ \<Rightarrow> Inl ValidationError)
      | _ \<Rightarrow> Inl ValidationError)"

fun validate_groups :: "defaults \<Rightarrow> json list \<Rightarrow> error + Group list" where
  "validate_groups D [] = Inr []"
| "validate_groups D (j # js) =
     (case (validate_Group D j, validate_groups D js) of
        (Inr g, Inr rest) \<Rightarrow> Inr (g # rest)
      | _ \<Rightarrow> Inl ValidationError)"

text \<open>
  \<^verbatim>\<open>Form.load_from_specification\<close> is \<^verbatim>\<open>cls(**specification)\<close>: unpacking anything
  but a dictionary raises \<^verbatim>\<open>TypeError\<close>. An absent \<^verbatim>\<open>front_matter\<close> is the
  default front matter object, a supplied one is the string.
\<close>

definition load_from_specification :: "defaults \<Rightarrow> json \<Rightarrow> error + Form" where
  "load_from_specification D specification =
     (case specification of
        JDict d \<Rightarrow>
          (case (required_str d ''name'', map_of d ''groups'',
                 map_of d ''front_matter'', optional_str d ''id'' (default_form_id D)) of
             (Some n, Some (JList js), None, Some i) \<Rightarrow>
               (case validate_groups D js of
                  Inr gs \<Rightarrow> Inr \<lparr>form_name = n, groups = gs,
                                front_matter = Post (default_metadata D), form_id = i\<rparr>
                | Inl e \<Rightarrow> Inl ValidationError)
           | (Some n, Some (JList js), Some (JStr fm), Some i) \<Rightarrow>
               (case validate_groups D js of
                  Inr gs \<Rightarrow> Inr \<lparr>form_name = n, groups = gs,
                                front_matter = Text fm, form_id = i\<rparr>
                | Inl e \<Rightarrow> Inl ValidationError)
           | _ \<Rightarrow> Inl ValidationError)
      | _ \<Rightarrow> Inl TypeError)"

text \<open>The specification at the end of the file, \<^verbatim>\<open>spec\<close>.\<close>

definition spec :: json where
  "spec = JDict
    [(''name'', JStr ''Publish a Blog Post''),
     (''groups'', JList
       [JDict
          [(''name'', JStr ''Post Details''),
           (''items'', JList
             [JDict [(''name'', JStr ''Title''), (''value'', JStr ''Coffee''),
                     (''html_type'', JStr ''text'')],
              JDict [(''name'', JStr ''Body''), (''value'', JStr ''This is a test!''),
                     (''html_type'', JStr ''textarea'')]])],
        JDict
          [(''name'', JStr ''Meta Information''),
           (''items'', JList
             [JDict [(''name'', JStr ''Slug''), (''value'', JStr ''POST-EXAMPLE''),
                     (''html_type'', JStr ''text''),
                     (''hooks'', JList [JStr ''slugify''])]])],
        JDict
          [(''name'', JStr ''Publish''),
           (''items'', JList
             [JDict [(''name'', JStr ''Publish''), (''value'', JStr ''Publish''),
                     (''html_type'', JStr ''submit'')]])]])]"

section \<open>Notions used in the statements\<close>

subsection \<open>Occurrences and fixed markup\<close>




subsection \<open>A single hook\<close>

text \<open>
  One hook applied to an item, as the specification words it: the named function is
  looked up, called with the current value, and its result replaces the value; an
  exception leaves the item as it is, and nothing more is done once one is raised.
\<close>

definition hook_step :: "string \<Rightarrow> FormItem \<times> error option \<Rightarrow> FormItem \<times> error option" where
  "hook_step hook st =
     (case st of
        (item, Some e) \<Rightarrow> (item, Some e)
      | (item, None) \<Rightarrow>
          (case globals hook of
             None \<Rightarrow> (item, Some KeyError)
           | Some g \<Rightarrow>
               (case call_global g (item_value item) of
                  Inl e \<Rightarrow> (item, Some e)
                | Inr v \<Rightarrow> (item\<lparr>item_value := v\<rparr>, None))))"

subsection \<open>Fragments and wrappers\<close>

text \<open>
  The HTML fragment of an item, and the wrapper element of a group: the \<^verbatim>\<open>div\<close>
  that carries the name of the group and holds the fragments of its items in order.
\<close>

definition item_fragment :: "FormItem \<Rightarrow> string" where
  "item_fragment i = (case FormItem_serialize_as_html i of Inr s \<Rightarrow> s | Inl e \<Rightarrow> [])"

definition group_wrapper :: "Group \<Rightarrow> string" where
  "group_wrapper g =
     ''<div class='group' id='' @ [CHR 0x27] @ group_name g @ '''>''
     @ concat (map item_fragment (items g)) @ ''</div>''"

subsection \<open>Entries of the front matter\<close>

text \<open>
  The items of a form in group and item order, and those that the front matter
  records: the ones whose \<^verbatim>\<open>html_type\<close> is not a control type.
\<close>

definition all_items :: "Form \<Rightarrow> FormItem list" where
  "all_items f = concat (map items (groups f))"

definition recorded :: "FormItem list \<Rightarrow> FormItem list" where
  "recorded its = filter (\<lambda>i. html_type i \<notin> CONTROL_TYPES) its"

text \<open>An item after its hooks have run, and the entry the front matter gets for it.\<close>

definition hooked :: "FormItem \<Rightarrow> FormItem" where
  "hooked i = fst (run_hooks i)"

definition entry :: "FormItem \<Rightarrow> string \<times> pyval" where
  "entry i = (lower (item_name i), item_value (hooked i))"

text \<open>Writing entries into a mapping one after the other: a later write replaces an
  earlier one to the same key.\<close>

definition write_entries :: "(string \<times> pyval) list \<Rightarrow> metadata \<Rightarrow> metadata" where
  "write_entries es md = fold (\<lambda>(k, v) m. m(k \<mapsto> v)) es md"

text \<open>A form in which every control item carries the given hook list.\<close>

definition with_control_hooks :: "string list \<Rightarrow> FormItem \<Rightarrow> FormItem" where
  "with_control_hooks hs i = (if html_type i \<in> CONTROL_TYPES then i\<lparr>hooks := hs\<rparr> else i)"

definition form_with_control_hooks :: "string list \<Rightarrow> Form \<Rightarrow> Form" where
  "form_with_control_hooks hs f =
     f\<lparr>groups := map (\<lambda>g. g\<lparr>items := map (with_control_hooks hs) (items g)\<rparr>) (groups f)\<rparr>"

text \<open>
  What one call of \<^verbatim>\<open>_serialize_as_front_matter\<close> does to an item and to a group
  when no hook raises: a control item is left alone, any other item has its hooks run.
\<close>

definition step_item :: "FormItem \<Rightarrow> FormItem" where
  "step_item i = (if html_type i \<in> CONTROL_TYPES then i else hooked i)"

definition step_group :: "Group \<Rightarrow> Group" where
  "step_group g = g\<lparr>items := map step_item (items g)\<rparr>"

subsection \<open>Specifications\<close>

text \<open>
  A specification that supplies the fields of the model: a dictionary with a string
  \<^verbatim>\<open>name\<close> and a list \<^verbatim>\<open>groups\<close> of dictionaries, each with a string \<^verbatim>\<open>name\<close>
  and a list \<^verbatim>\<open>items\<close> of dictionaries, each with a string \<^verbatim>\<open>name\<close>; the other
  fields, where present, are strings, and \<^verbatim>\<open>hooks\<close> a list of strings.
\<close>

definition str_or_absent :: "(string \<times> json) list \<Rightarrow> string \<Rightarrow> bool" where
  "str_or_absent d key =
     (case map_of d key of None \<Rightarrow> True | Some (JStr s) \<Rightarrow> True | Some _ \<Rightarrow> False)"

definition is_str :: "json \<Rightarrow> bool" where
  "is_str j = (case j of JStr s \<Rightarrow> True | _ \<Rightarrow> False)"

definition item_specification :: "json \<Rightarrow> bool" where
  "item_specification j =
     (case j of
        JDict d \<Rightarrow>
          (case map_of d ''name'' of Some (JStr n) \<Rightarrow> True | _ \<Rightarrow> False)
          \<and> str_or_absent d ''value'' \<and> str_or_absent d ''placeholder''
          \<and> str_or_absent d ''html_type'' \<and> str_or_absent d ''id''
          \<and> (case map_of d ''hooks'' of
                None \<Rightarrow> True | Some (JList hs) \<Rightarrow> list_all is_str hs | Some _ \<Rightarrow> False)
      | _ \<Rightarrow> False)"

definition group_specification :: "json \<Rightarrow> bool" where
  "group_specification j =
     (case j of
        JDict d \<Rightarrow>
          (case map_of d ''name'' of Some (JStr n) \<Rightarrow> True | _ \<Rightarrow> False)
          \<and> (case map_of d ''items'' of
                Some (JList its) \<Rightarrow> list_all item_specification its | _ \<Rightarrow> False)
      | _ \<Rightarrow> False)"

definition form_specification :: "json \<Rightarrow> bool" where
  "form_specification j =
     (case j of
        JDict d \<Rightarrow>
          (case map_of d ''name'' of Some (JStr n) \<Rightarrow> True | _ \<Rightarrow> False)
          \<and> (case map_of d ''groups'' of
                Some (JList gs) \<Rightarrow> list_all group_specification gs | _ \<Rightarrow> False)
          \<and> str_or_absent d ''front_matter'' \<and> str_or_absent d ''id''
      | _ \<Rightarrow> False)"

text \<open>
  Reading a form back against its specification: a field that the specification
  supplies has the supplied value, and a field with a default that it leaves out has
  the default.
\<close>

definition str_reads_back :: "(string \<times> json) list \<Rightarrow> string \<Rightarrow> string \<Rightarrow> string \<Rightarrow> bool" where
  "str_reads_back d key dflt x =
     (case map_of d key of None \<Rightarrow> x = dflt | Some j \<Rightarrow> j = JStr x)"

definition item_reads_back :: "defaults \<Rightarrow> json \<Rightarrow> FormItem \<Rightarrow> bool" where
  "item_reads_back D j i =
     (case j of
        JDict d \<Rightarrow>
          map_of d ''name'' = Some (JStr (item_name i))
          \<and> (case item_value i of
                Str v \<Rightarrow> str_reads_back d ''value'' [] v | EmptyDict \<Rightarrow> False)
          \<and> str_reads_back d ''placeholder'' [] (placeholder i)
          \<and> str_reads_back d ''html_type'' ''text'' (html_type i)
          \<and> str_reads_back d ''id'' (default_item_id D) (item_id i)
          \<and> (case map_of d ''hooks'' of
                None \<Rightarrow> hooks i = [] | Some h \<Rightarrow> h = JList (map JStr (hooks i)))
      | _ \<Rightarrow> False)"

definition group_reads_back :: "defaults \<Rightarrow> json \<Rightarrow> Group \<Rightarrow> bool" where
  "group_reads_back D j g =
     (case j of
        JDict d \<Rightarrow>
          map_of d ''name'' = Some (JStr (group_name g))
          \<and> (case map_of d ''items'' of
                Some (JList its) \<Rightarrow> list_all2 (item_reads_back D) its (items g)
              | _ \<Rightarrow> False)
      | _ \<Rightarrow> False)"

definition form_reads_back :: "defaults \<Rightarrow> json \<Rightarrow> Form \<Rightarrow> bool" where
  "form_reads_back D j f =
     (case j of
        JDict d \<Rightarrow>
          map_of d ''name'' = Some (JStr (form_name f))
          \<and> (case map_of d ''groups'' of
                Some (JList gs) \<Rightarrow> list_all2 (group_reads_back D) gs (groups f)
              | _ \<Rightarrow> False)
          \<and> (case map_of d ''front_matter'' of
                None \<Rightarrow> front_matter f = Post (default_metadata D)
              | Some fm \<Rightarrow> (case front_matter f of Text s \<Rightarrow> fm = JStr s | Post m \<Rightarrow> False))
          \<and> str_reads_back d ''id'' (default_form_id D) (form_id f)
      | _ \<Rightarrow> False)"

section \<open>Example inputs\<close>

text \<open>
  Two fixed strings for the defaults of the id fields, and the form that
  \<^verbatim>\<open>Form.load_from_specification(spec)\<close> builds under them.
\<close>

definition example_defaults :: defaults where
  "example_defaults =
     \<lparr>default_item_id = ''item-uuid'', default_form_id = ''form-uuid'',
      default_metadata = Map.empty\<rparr>"

definition blog_form :: "defaults \<Rightarrow> Form" where
  "blog_form D =
    \<lparr>form_name = ''Publish a Blog Post'',
     groups =
       [\<lparr>group_name = ''Post Details'',
         items =
           [\<lparr>item_name = ''Title'', item_value = Str ''Coffee'', placeholder = [],
             html_type = ''text'', item_id = default_item_id D, hooks = []\<rparr>,
            \<lparr>item_name = ''Body'', item_value = Str ''This is a test!'', placeholder = [],
             html_type = ''textarea'', item_id = default_item_id D, hooks = []\<rparr>]\<rparr>,
        \<lparr>group_name = ''Meta Information'',
         items =
           [\<lparr>item_name = ''Slug'', item_value = Str ''POST-EXAMPLE'', placeholder = [],
             html_type = ''text'', item_id = default_item_id D, hooks = [''slugify'']\<rparr>]\<rparr>,
        \<lparr>group_name = ''Publish'',
         items =
           [\<lparr>item_name = ''Publish'', item_value = Str ''Publish'', placeholder = [],
             html_type = ''submit'', item_id = default_item_id D, hooks = []\<rparr>]\<rparr>],
     front_matter = Post (default_metadata D),
     form_id = default_form_id D\<rparr>"

text \<open>
  A form with one group: a text item with the \<^verbatim>\<open>slugify\<close> hook and a submit
  button that carries a hook name bound to nothing.
\<close>

definition slug_item :: FormItem where
  "slug_item = \<lparr>item_name = ''Slug'', item_value = Str ''POST EXAMPLE'', placeholder = [],
     html_type = ''text'', item_id = ''f1'', hooks = [''slugify'']\<rparr>"

definition publish_item :: FormItem where
  "publish_item = \<lparr>item_name = ''Publish'', item_value = Str ''Publish Now'',
     placeholder = [], html_type = ''submit'', item_id = ''f2'', hooks = [''missing'']\<rparr>"

definition slug_form :: Form where
  "slug_form =
    \<lparr>form_name = ''Post'',
     groups = [\<lparr>group_name = ''Meta'', items = [slug_item, publish_item]\<rparr>],
     front_matter = Post Map.empty, form_id = ''form-1''\<rparr>"

text \<open>A form with two groups that each hold an item named \<^verbatim>\<open>Name\<close>.\<close>

definition address_form :: Form where
  "address_form =
    \<lparr>form_name = ''Order'',
     groups =
       [\<lparr>group_name = ''Billing'',
         items = [\<lparr>item_name = ''Name'', item_value = Str ''Ann'', placeholder = [],
                   html_type = ''text'', item_id = ''b1'', hooks = []\<rparr>]\<rparr>,
        \<lparr>group_name = ''Shipping'',
         items = [\<lparr>item_name = ''Name'', item_value = Str ''Bob'', placeholder = [],
                   html_type = ''text'', item_id = ''s1'', hooks = []\<rparr>]\<rparr>],
     front_matter = Post Map.empty, form_id = ''form-2''\<rparr>"

section \<open>The slugify hook\<close>

lemma lower_char_not_upper: "lower_char c \<notin> set ascii_uppercase"
  by (simp add: lower_char_def ascii_uppercase_def ascii_lowercase_def)

lemma lower_char_fixes_others: "c \<notin> set ascii_uppercase \<Longrightarrow> lower_char c = c"
  by (simp add: lower_char_def ascii_uppercase_def ascii_lowercase_def)

lemma slugify_examples:
  "slugify ''POST EXAMPLE'' = ''post-example''"
  "slugify ''POST-EXAMPLE'' = ''post-example''"
  "slugify ''post-example'' = ''post-example''"
  by (simp_all add: slugify_def lower_def replace_char_def lower_char_def
      ascii_uppercase_def ascii_lowercase_def)

lemma lower_examples:
  "lower ''Title'' = ''title''" "lower ''Body'' = ''body''" "lower ''Slug'' = ''slug''"
  "lower ''Name'' = ''name''" "lower ''Publish'' = ''publish''"
  by (simp_all add: lower_def lower_char_def ascii_uppercase_def ascii_lowercase_def)

text \<open>
  C9. Applying \<^verbatim>\<open>slugify\<close> to \<^verbatim>\<open>"POST EXAMPLE"\<close> yields \<^verbatim>\<open>"post-example"\<close>, and
  on every string the result has the length of the input, a hyphen where the input
  has a space and the lowercased character of the input everywhere else; it holds no
  space and no uppercase letter.
\<close>

theorem slugify_post_example:
  "slugify ''POST EXAMPLE'' = ''post-example''
   \<and> length (slugify v) = length v
   \<and> (\<forall>i < length v. slugify v ! i
        = (if v ! i = CHR '' '' then CHR ''-'' else lower_char (v ! i)))
   \<and> CHR '' '' \<notin> set (slugify v)
   \<and> set (slugify v) \<inter> set ascii_uppercase = {}"
proof -
  have ex: "slugify ''POST EXAMPLE'' = ''post-example''"
    by (simp add: slugify_def lower_def replace_char_def lower_char_def
        ascii_uppercase_def ascii_lowercase_def)
  have hy: "lower_char (CHR ''-'') = CHR ''-''"
    by (simp add: lower_char_def ascii_uppercase_def ascii_lowercase_def)
  have sp: "lower_char c = CHR '' '' \<Longrightarrow> c = CHR '' ''" for c
    by (cases "c \<in> set ascii_uppercase")
      (auto simp: lower_char_fixes_others,
        auto simp: lower_char_def ascii_uppercase_def ascii_lowercase_def)
  have len: "length (slugify v) = length v"
    by (simp add: slugify_def lower_def replace_char_def)
  have nth: "\<forall>i < length v. slugify v ! i
        = (if v ! i = CHR '' '' then CHR ''-'' else lower_char (v ! i))"
    by (simp add: slugify_def lower_def replace_char_def hy)
  have nosp: "CHR '' '' \<notin> set (slugify v)"
    using sp by (auto simp: slugify_def lower_def replace_char_def hy split: if_splits)
  have noup: "set (slugify v) \<inter> set ascii_uppercase = {}"
    using lower_char_not_upper by (auto simp: slugify_def lower_def)
  from ex len nth nosp noup show ?thesis by blast
qed

theorem slugify_post_example_witness:
  "slugify ''A b'' ! 1 = CHR ''-'' \<and> slugify ''A b'' ! 0 = CHR ''a''"
  using slugify_post_example [of "''A b''"]
  by (simp add: lower_char_def ascii_uppercase_def ascii_lowercase_def)

section \<open>Rendering an item\<close>

lemma map_of_RENDER_FUNCTIONS_None:
  "map_of RENDER_FUNCTIONS t = None \<longleftrightarrow> t \<notin> HTML_TYPE"
  by (simp add: RENDER_FUNCTIONS_def HTML_TYPE_def)

text \<open>
  C7. Rendering an item whose \<^verbatim>\<open>html_type\<close> is not one of the five supported
  values fails with \<^verbatim>\<open>KeyError\<close>; rendering an item whose \<^verbatim>\<open>html_type\<close> is
  supported returns a string, so the error arises for unsupported values only.
\<close>

theorem render_key_error_iff_unsupported:
  "(html_type item \<notin> HTML_TYPE \<longrightarrow> FormItem_serialize_as_html item = Inl KeyError)
   \<and> (html_type item \<in> HTML_TYPE \<longrightarrow> (\<exists>html. FormItem_serialize_as_html item = Inr html))"
  using map_of_RENDER_FUNCTIONS_None [of "html_type item"]
  by (auto simp: FormItem_serialize_as_html_def split: option.splits)

theorem render_key_error_iff_unsupported_witness:
  "FormItem_serialize_as_html
     \<lparr>item_name = ''When'', item_value = Str [], placeholder = [], html_type = ''date'',
      item_id = ''f1'', hooks = []\<rparr> = Inl KeyError
   \<and> (\<exists>html. FormItem_serialize_as_html
     \<lparr>item_name = ''When'', item_value = Str [], placeholder = [], html_type = ''text'',
      item_id = ''f1'', hooks = []\<rparr> = Inr html)"
  using render_key_error_iff_unsupported
    [of "\<lparr>item_name = ''When'', item_value = Str [], placeholder = [], html_type = ''date'',
      item_id = ''f1'', hooks = []\<rparr>"]
    render_key_error_iff_unsupported
    [of "\<lparr>item_name = ''When'', item_value = Str [], placeholder = [], html_type = ''text'',
      item_id = ''f1'', hooks = []\<rparr>"]
  by (simp add: HTML_TYPE_def)












section \<open>Running the hooks of an item\<close>

lemma globals_slugify: "globals ''slugify'' = Some Slugify"
  by (simp add: globals_def module_globals_def)

lemma globals_missing: "globals ''missing'' = None"
  by (simp add: globals_def module_globals_def)

lemma globals_HTML_TYPE: "globals ''HTML_TYPE'' = Some Data"
  by (simp add: globals_def module_globals_def)

lemma hook_step_error: "hook_step h (item, Some e) = (item, Some e)"
  by (simp add: hook_step_def)

lemma hook_step_unbound: "globals h = None \<Longrightarrow> hook_step h (item, None) = (item, Some KeyError)"
  by (simp add: hook_step_def)

lemma hook_step_raises:
  "globals h = Some g \<Longrightarrow> call_global g (item_value item) = Inl e \<Longrightarrow>
     hook_step h (item, None) = (item, Some e)"
  by (simp add: hook_step_def)

lemma hook_step_returns:
  "globals h = Some g \<Longrightarrow> call_global g (item_value item) = Inr v \<Longrightarrow>
     hook_step h (item, None) = (item\<lparr>item_value := v\<rparr>, None)"
  by (simp add: hook_step_def)

lemma fold_hook_step_error: "fold hook_step hs (item, Some e) = (item, Some e)"
  by (induction hs) (simp_all add: hook_step_error)

lemma run_hooks_loop_fold: "run_hooks_loop hs item = fold hook_step hs (item, None)"
proof (induction hs arbitrary: item)
  case Nil
  show ?case by simp
next
  case (Cons h hs)
  show ?case
  proof (cases "globals h")
    case None
    then show ?thesis by (simp add: hook_step_unbound fold_hook_step_error)
  next
    case (Some g)
    show ?thesis
    proof (cases "call_global g (item_value item)")
      case (Inl e)
      with Some show ?thesis by (simp add: hook_step_raises fold_hook_step_error)
    next
      case (Inr v)
      with Some show ?thesis by (simp add: hook_step_returns Cons.IH)
    qed
  qed
qed

lemma run_hooks_loop_error_by_value:
  "item_value a = item_value b \<Longrightarrow> snd (run_hooks_loop hs a) = snd (run_hooks_loop hs b)"
proof (induction hs arbitrary: a b)
  case Nil
  show ?case by simp
next
  case (Cons h hs)
  show ?case
  proof (cases "globals h")
    case None
    then show ?thesis by simp
  next
    case (Some g)
    show ?thesis
    proof (cases "call_global g (item_value b)")
      case (Inl e)
      with Some Cons.prems show ?thesis by simp
    next
      case (Inr v)
      have "snd (run_hooks_loop hs (a\<lparr>item_value := v\<rparr>))
          = snd (run_hooks_loop hs (b\<lparr>item_value := v\<rparr>))"
        by (rule Cons.IH) simp
      with Some Inr Cons.prems show ?thesis by simp
    qed
  qed
qed

lemma run_hooks_loop_frame:
  "run_hooks_loop hs item = (item', e) \<Longrightarrow> item' = item\<lparr>item_value := item_value item'\<rparr>"
proof (induction hs arbitrary: item)
  case Nil
  then show ?case by auto
next
  case (Cons h hs)
  show ?case
  proof (cases "globals h")
    case None
    with Cons.prems show ?thesis by auto
  next
    case (Some g)
    show ?thesis
    proof (cases "call_global g (item_value item)")
      case (Inl err)
      with Some Cons.prems show ?thesis by auto
    next
      case (Inr v)
      with Some Cons.prems have "run_hooks_loop hs (item\<lparr>item_value := v\<rparr>) = (item', e)"
        by simp
      from Cons.IH [OF this] show ?thesis
        by (metis FormItem.surjective FormItem.update_convs(2))
    qed
  qed
qed

lemma run_hooks_loop_KeyError:
  "snd (run_hooks_loop hs item) = Some KeyError \<longleftrightarrow>
     (\<exists>pre h post. hs = pre @ h # post \<and> snd (run_hooks_loop pre item) = None
        \<and> globals h = None)"
proof (induction hs arbitrary: item)
  case Nil
  show ?case by simp
next
  case (Cons a hs)
  show ?case
  proof (cases "globals a")
    case None
    have "a # hs = [] @ a # hs \<and> snd (run_hooks_loop [] item) = None \<and> globals a = None"
      using None by simp
    then have "\<exists>pre h post. a # hs = pre @ h # post \<and> snd (run_hooks_loop pre item) = None
        \<and> globals h = None" by blast
    with None show ?thesis by simp
  next
    case (Some g)
    show ?thesis
    proof (cases "call_global g (item_value item)")
      case (Inl err)
      have ne: "err \<noteq> KeyError" using Inl by (cases g; cases "item_value item") (auto split: if_splits)
      have "\<not> (\<exists>pre h post. a # hs = pre @ h # post \<and> snd (run_hooks_loop pre item) = None
        \<and> globals h = None)"
      proof
        assume "\<exists>pre h post. a # hs = pre @ h # post \<and> snd (run_hooks_loop pre item) = None
        \<and> globals h = None"
        then obtain pre h post where p: "a # hs = pre @ h # post"
          "snd (run_hooks_loop pre item) = None" "globals h = None" by blast
        show False
        proof (cases pre)
          case Nil
          with p Some show False by simp
        next
          case (Cons b pre')
          with p have "b = a" by simp
          with Cons p(2) Some Inl show False by simp
        qed
      qed
      with Some Inl ne show ?thesis by simp
    next
      case (Inr v)
      let ?it = "item\<lparr>item_value := v\<rparr>"
      have l: "snd (run_hooks_loop (a # hs) item) = snd (run_hooks_loop hs ?it)"
        using Some Inr by simp
      have "(\<exists>pre h post. a # hs = pre @ h # post \<and> snd (run_hooks_loop pre item) = None
               \<and> globals h = None)
         \<longleftrightarrow> (\<exists>pre h post. hs = pre @ h # post \<and> snd (run_hooks_loop pre ?it) = None
               \<and> globals h = None)" (is "?L \<longleftrightarrow> ?R")
      proof
        assume ?L
        then obtain pre h post where p: "a # hs = pre @ h # post"
          "snd (run_hooks_loop pre item) = None" "globals h = None" by blast
        show ?R
        proof (cases pre)
          case Nil
          with p Some show ?thesis by simp
        next
          case (Cons b pre')
          with p have "b = a" "hs = pre' @ h # post" by simp_all
          moreover have "snd (run_hooks_loop pre' ?it) = None"
            using p(2) Cons \<open>b = a\<close> Some Inr by simp
          ultimately show ?thesis using p(3) by blast
        qed
      next
        assume ?R
        then obtain pre h post where p: "hs = pre @ h # post"
          "snd (run_hooks_loop pre ?it) = None" "globals h = None" by blast
        have "a # hs = (a # pre) @ h # post" using p(1) by simp
        moreover have "snd (run_hooks_loop (a # pre) item) = None"
          using p(2) Some Inr by simp
        ultimately show ?L using p(3) by blast
      qed
      with l Cons.IH [of ?it] show ?thesis by simp
    qed
  qed
qed

lemma run_hooks_no_hooks: "hooks i = [] \<Longrightarrow> run_hooks i = (i, None)"
  by (simp add: run_hooks_def)

text \<open>
  C8, as stated, fails: with the hooks \<^verbatim>\<open>["HTML_TYPE", "missing"]\<close> the second name
  is bound to nothing, yet the call fails with \<^verbatim>\<open>TypeError\<close>, raised by calling
  the set \<^verbatim>\<open>HTML_TYPE\<close>, and the lookup of \<^verbatim>\<open>missing\<close> is never reached.
\<close>

theorem run_hooks_key_error_counterexample:
  "snd (run_hooks \<lparr>item_name = ''Slug'', item_value = Str ''POST EXAMPLE'', placeholder = [],
          html_type = ''text'', item_id = ''f1'', hooks = [''HTML_TYPE'', ''missing'']\<rparr>)
     = Some TypeError
   \<and> globals ''missing'' = None"
  by (simp add: run_hooks_def globals_HTML_TYPE globals_missing)

text \<open>
  C8, amended. \<^verbatim>\<open>_run_hooks\<close> applies the hooks in sequence, each to the current
  value, and replaces the value with what the call returns; nothing but the value of
  the item changes. It fails with \<^verbatim>\<open>KeyError\<close> exactly when some hook name is not
  bound in the module namespace and the hooks before that name all ran without raising.
\<close>

theorem run_hooks_sequence_and_key_error:
  "run_hooks item = fold hook_step (hooks item) (item, None)
   \<and> fst (run_hooks item) = item\<lparr>item_value := item_value (fst (run_hooks item))\<rparr>
   \<and> (snd (run_hooks item) = Some KeyError \<longleftrightarrow>
        (\<exists>pre h post. hooks item = pre @ h # post
           \<and> snd (run_hooks (item\<lparr>hooks := pre\<rparr>)) = None \<and> globals h = None))"
proof -
  have a: "run_hooks item = fold hook_step (hooks item) (item, None)"
    by (simp add: run_hooks_def run_hooks_loop_fold)
  have b: "fst (run_hooks item) = item\<lparr>item_value := item_value (fst (run_hooks item))\<rparr>"
    using run_hooks_loop_frame [of "hooks item" item "fst (run_hooks item)" "snd (run_hooks item)"]
    by (simp add: run_hooks_def)
  have f: "snd (run_hooks_loop pre (item\<lparr>hooks := pre\<rparr>)) = snd (run_hooks_loop pre item)" for pre
    by (rule run_hooks_loop_error_by_value) simp
  show ?thesis using a b run_hooks_loop_KeyError [of "hooks item" item] f
    by (simp add: run_hooks_def)
qed

text \<open>
  With the hooks \<^verbatim>\<open>["slugify", "missing"]\<close> the value is slugified and the lookup
  of the second name raises \<^verbatim>\<open>KeyError\<close>.
\<close>

theorem run_hooks_sequence_and_key_error_witness:
  "run_hooks \<lparr>item_name = ''Slug'', item_value = Str ''POST EXAMPLE'', placeholder = [],
          html_type = ''text'', item_id = ''f1'', hooks = [''slugify'', ''missing'']\<rparr>
     = (\<lparr>item_name = ''Slug'', item_value = Str ''post-example'', placeholder = [],
          html_type = ''text'', item_id = ''f1'', hooks = [''slugify'', ''missing'']\<rparr>,
        Some KeyError)"
proof -
  let ?x = "\<lparr>item_name = ''Slug'', item_value = Str ''POST EXAMPLE'', placeholder = [],
          html_type = ''text'', item_id = ''f1'', hooks = [''slugify'', ''missing'']\<rparr>"
  have "hooks ?x = [''slugify''] @ ''missing'' # []
      \<and> snd (run_hooks (?x\<lparr>hooks := [''slugify'']\<rparr>)) = None \<and> globals ''missing'' = None"
    by (simp add: run_hooks_def globals_slugify globals_missing)
  then have "\<exists>pre h post. hooks ?x = pre @ h # post
           \<and> snd (run_hooks (?x\<lparr>hooks := pre\<rparr>)) = None \<and> globals h = None"
    by blast
  with run_hooks_sequence_and_key_error [of ?x]
  have k: "snd (run_hooks ?x) = Some KeyError"
    and s: "run_hooks ?x = fold hook_step (hooks ?x) (?x, None)" by blast+
  from s have "fst (run_hooks ?x) = ?x\<lparr>item_value := Str ''post-example''\<rparr>"
    by (simp add: hook_step_def globals_slugify globals_missing slugify_examples)
  with k show ?thesis by (simp add: prod_eq_iff)
qed

section \<open>Rendering a form\<close>

lemma item_fragment_supported:
  "html_type i \<in> HTML_TYPE \<Longrightarrow> FormItem_serialize_as_html i = Inr (item_fragment i)"
  using map_of_RENDER_FUNCTIONS_None [of "html_type i"]
  by (auto simp: item_fragment_def FormItem_serialize_as_html_def split: option.splits)

lemma items_html_loop_supported:
  "\<forall>i \<in> set its. html_type i \<in> HTML_TYPE \<Longrightarrow>
     items_html_loop its html = Inr (html @ concat (map item_fragment its))"
proof (induction its arbitrary: html)
  case Nil
  show ?case by simp
next
  case (Cons i its)
  then have "FormItem_serialize_as_html i = Inr (item_fragment i)"
    by (simp add: item_fragment_supported)
  moreover have "items_html_loop its (html @ item_fragment i)
      = Inr ((html @ item_fragment i) @ concat (map item_fragment its))"
    by (rule Cons.IH) (use Cons.prems in simp)
  ultimately show ?case by (simp only: items_html_loop.simps sum.case append_assoc concat.simps list.map)
qed

lemma groups_html_loop_supported:
  "\<forall>i \<in> set (concat (map items gs)). html_type i \<in> HTML_TYPE \<Longrightarrow>
     groups_html_loop gs html = Inr (html @ concat (map group_wrapper gs))"
proof (induction gs arbitrary: html)
  case Nil
  show ?case by simp
next
  case (Cons g gs)
  let ?opened = "html @ ''<div class='group' id='' @ [CHR 0x27] @ group_name g @ '''>''"
  from Cons.prems have "\<forall>i \<in> set (items g). html_type i \<in> HTML_TYPE" by simp
  then have a: "items_html_loop (items g) ?opened
      = Inr (?opened @ concat (map item_fragment (items g)))"
    by (rule items_html_loop_supported)
  have b: "groups_html_loop gs ((?opened @ concat (map item_fragment (items g))) @ ''</div>'')
      = Inr (((?opened @ concat (map item_fragment (items g))) @ ''</div>'')
             @ concat (map group_wrapper gs))"
    by (rule Cons.IH) (use Cons.prems in simp)
  have "groups_html_loop (g # gs) html
      = groups_html_loop gs ((?opened @ concat (map item_fragment (items g))) @ ''</div>'')"
    by (simp only: groups_html_loop.simps a sum.case)
  also note b
  finally show ?case by (simp add: group_wrapper_def [of g])
qed

lemma blog_form_items:
  "all_items (blog_form D) =
     [\<lparr>item_name = ''Title'', item_value = Str ''Coffee'', placeholder = [],
       html_type = ''text'', item_id = default_item_id D, hooks = []\<rparr>,
      \<lparr>item_name = ''Body'', item_value = Str ''This is a test!'', placeholder = [],
       html_type = ''textarea'', item_id = default_item_id D, hooks = []\<rparr>,
      \<lparr>item_name = ''Slug'', item_value = Str ''POST-EXAMPLE'', placeholder = [],
       html_type = ''text'', item_id = default_item_id D, hooks = [''slugify'']\<rparr>,
      \<lparr>item_name = ''Publish'', item_value = Str ''Publish'', placeholder = [],
       html_type = ''submit'', item_id = default_item_id D, hooks = []\<rparr>]"
  by (simp add: all_items_def blog_form_def)

lemma blog_form_supported:
  "\<forall>i \<in> set (all_items (blog_form D)). html_type i \<in> HTML_TYPE"
  by (simp add: blog_form_items HTML_TYPE_def)

text \<open>
  C2. For a form whose items all have a supported \<^verbatim>\<open>html_type\<close>,
  \<^verbatim>\<open>Form._serialize_as_html\<close> returns the heading with the name of the form, the
  opening tag of a form element whose action is \<^verbatim>\<open>/\<close> followed by the id of the form
  and whose method is POST, the wrapper of each group in group order, and the closing
  tag. There are as many wrappers as groups, and each wrapper holds the fragments of the
  items of its group in item order, each being what rendering the item returns.
\<close>

theorem form_html_structure:
  assumes "\<forall>i \<in> set (all_items f). html_type i \<in> HTML_TYPE"
  shows "Form_serialize_as_html f =
           Inr (''<h1>'' @ form_name f @ ''</h1><form action='/'' @ form_id f
                @ ''' method='POST'>'' @ concat (map group_wrapper (groups f)) @ ''</form>'')
     \<and> length (map group_wrapper (groups f)) = length (groups f)
     \<and> (\<forall>i \<in> set (all_items f). FormItem_serialize_as_html i = Inr (item_fragment i))"
proof -
  from assms have "\<forall>i \<in> set (concat (map items (groups f))). html_type i \<in> HTML_TYPE"
    by (simp add: all_items_def)
  from groups_html_loop_supported [OF this]
  have "Form_serialize_as_html f =
           Inr (''<h1>'' @ form_name f @ ''</h1><form action='/'' @ form_id f
                @ ''' method='POST'>'' @ concat (map group_wrapper (groups f)) @ ''</form>'')"
    by (simp add: Form_serialize_as_html_def)
  moreover have "\<forall>i \<in> set (all_items f). FormItem_serialize_as_html i = Inr (item_fragment i)"
    using assms item_fragment_supported by blast
  ultimately show ?thesis by simp
qed

text \<open>The HTML of the form of the example specification.\<close>

theorem form_html_structure_witness:
  \<open>Form_serialize_as_html (blog_form example_defaults) =
     Inr (''<h1>Publish a Blog Post</h1>''
        @ ''<form action='/form-uuid' method='POST'>''
        @ ''<div class='group' id='Post Details'>''
        @ ''<label for='item-uuid'>Title</label>''
        @ ''<input type="text" id="item-uuid" name="Title" value="Coffee" placeholder="">''
        @ ''<label for='item-uuid'>Body</label>''
        @ ''<textarea id="item-uuid" name="Body" placeholder="">This is a test!</textarea>''
        @ ''</div>''
        @ ''<div class='group' id='Meta Information'>''
        @ ''<label for='item-uuid'>Slug</label>''
        @ ''<input type="text" id="item-uuid" name="Slug" value="POST-EXAMPLE" placeholder="">''
        @ ''</div>''
        @ ''<div class='group' id='Publish'>''
        @ ''<label for='item-uuid'>Publish</label>''
        @ ''<button id="item-uuid" name="Publish">Publish</button>''
        @ ''</div>''
        @ ''</form>'')\<close>
proof -
  have "Form_serialize_as_html (blog_form example_defaults) =
           Inr (''<h1>'' @ form_name (blog_form example_defaults) @ ''</h1><form action='/''
                @ form_id (blog_form example_defaults) @ ''' method='POST'>''
                @ concat (map group_wrapper (groups (blog_form example_defaults)))
                @ ''</form>'')"
    using form_html_structure [OF blog_form_supported [of example_defaults]] by blast
  then show ?thesis
    by (simp add: blog_form_def example_defaults_def group_wrapper_def item_fragment_def
        FormItem_serialize_as_html_def RENDER_FUNCTIONS_def render_text_def
        render_textarea_def render_submit_def format_value_def)
qed

section \<open>Serializing the front matter\<close>

lemma hooked_frame:
  "item_name (hooked i) = item_name i" "html_type (hooked i) = html_type i"
  "hooks (hooked i) = hooks i" "placeholder (hooked i) = placeholder i"
  "item_id (hooked i) = item_id i"
proof -
  obtain i' e where r: "run_hooks_loop (hooks i) i = (i', e)" by (cases "run_hooks_loop (hooks i) i")
  from run_hooks_loop_frame [OF r] have "i' = i\<lparr>item_value := item_value i'\<rparr>" .
  then have "item_name i' = item_name i \<and> html_type i' = html_type i \<and> hooks i' = hooks i
     \<and> placeholder i' = placeholder i \<and> item_id i' = item_id i"
    by (metis FormItem.select_convs FormItem.surjective FormItem.update_convs(2))
  with r show "item_name (hooked i) = item_name i" "html_type (hooked i) = html_type i"
  "hooks (hooked i) = hooks i" "placeholder (hooked i) = placeholder i"
  "item_id (hooked i) = item_id i"
    by (simp_all add: hooked_def run_hooks_def)
qed

lemma write_entries_simps:
  "write_entries [] md = md"
  "write_entries ((k, v) # es) md = write_entries es (md(k \<mapsto> v))"
  by (simp_all add: write_entries_def)

lemma write_entries_append:
  "write_entries (es @ es') md = write_entries es' (write_entries es md)"
  by (simp add: write_entries_def)

lemma recorded_simps:
  "recorded [] = []"
  "html_type i \<in> CONTROL_TYPES \<Longrightarrow> recorded (i # its) = recorded its"
  "html_type i \<notin> CONTROL_TYPES \<Longrightarrow> recorded (i # its) = i # recorded its"
  "recorded (xs @ ys) = recorded xs @ recorded ys"
  by (simp_all add: recorded_def)

lemma items_loop_success:
  assumes "\<forall>i \<in> set (recorded its). snd (run_hooks i) = None"
  shows "front_matter_items_loop its md =
           (map step_item its, write_entries (map entry (recorded its)) md, None)"
  using assms
proof (induction its arbitrary: md)
  case Nil
  show ?case by (simp add: recorded_simps write_entries_simps)
next
  case (Cons i its)
  show ?case
  proof (cases "html_type i \<in> CONTROL_TYPES")
    case True
    with Cons.prems have "\<forall>i \<in> set (recorded its). snd (run_hooks i) = None"
      by (simp add: recorded_simps)
    from Cons.IH [OF this] True show ?thesis
      by (simp add: recorded_simps step_item_def)
  next
    case False
    with Cons.prems have ok: "snd (run_hooks i) = None"
      and rest: "\<forall>i \<in> set (recorded its). snd (run_hooks i) = None"
      by (simp_all add: recorded_simps)
    from ok have r: "run_hooks i = (hooked i, None)"
      by (simp add: hooked_def prod_eq_iff)
    let ?md = "md(lower (item_name (hooked i)) \<mapsto> item_value (hooked i))"
    have step: "front_matter_items_loop (i # its) md =
        (case front_matter_items_loop its ?md of
           (rest', md', e) \<Rightarrow> (hooked i # rest', md', e))"
      using False r by simp
    have ih: "front_matter_items_loop its ?md =
        (map step_item its, write_entries (map entry (recorded its)) ?md, None)"
      by (rule Cons.IH [OF rest])
    have "front_matter_items_loop (i # its) md =
        (hooked i # map step_item its, write_entries (map entry (recorded its)) ?md, None)"
      unfolding step ih by simp
    moreover have "map entry (recorded (i # its)) =
        (lower (item_name (hooked i)), item_value (hooked i)) # map entry (recorded its)"
      using False by (simp add: recorded_simps entry_def hooked_frame)
    moreover have "step_item i = hooked i"
      using False by (simp add: step_item_def)
    ultimately show ?thesis
      by (simp only: write_entries_simps list.map)
  qed
qed


lemma groups_loop_success:
  assumes "\<forall>i \<in> set (recorded (concat (map items gs))). snd (run_hooks i) = None"
  shows "front_matter_groups_loop gs md =
           (map step_group gs, write_entries (map entry (recorded (concat (map items gs)))) md, None)"
  using assms
proof (induction gs arbitrary: md)
  case Nil
  show ?case by (simp add: recorded_simps write_entries_simps)
next
  case (Cons g gs)
  from Cons.prems have a: "\<forall>i \<in> set (recorded (items g)). snd (run_hooks i) = None"
    and b: "\<forall>i \<in> set (recorded (concat (map items gs))). snd (run_hooks i) = None"
    by (simp_all add: recorded_simps)
  from items_loop_success [OF a, of md]
    Cons.IH [OF b, of "write_entries (map entry (recorded (items g))) md"]
  show ?case
    by (simp add: recorded_simps write_entries_append step_group_def)
qed


lemma write_entries_other:
  "k \<notin> fst ` set es \<Longrightarrow> write_entries es md k = md k"
  by (induction es arbitrary: md) (auto simp: write_entries_simps)

lemma write_entries_distinct:
  "distinct (map fst es) \<Longrightarrow> (k, v) \<in> set es \<Longrightarrow> write_entries es md k = Some v"
proof (induction es arbitrary: md)
  case Nil
  then show ?case by simp
next
  case (Cons a es)
  obtain k' v' where a: "a = (k', v')" by (cases a)
  show ?case
  proof (cases "(k, v) = a")
    case True
    with Cons.prems a have "k \<notin> fst ` set es" by auto
    from write_entries_other [OF this] True a show ?thesis
      by (simp add: write_entries_simps)
  next
    case False
    with Cons.prems have "(k, v) \<in> set es" "distinct (map fst es)" by auto
    from Cons.IH [OF this(2) this(1)] a show ?thesis
      by (simp add: write_entries_simps)
  qed
qed

lemma serialize_success:
  assumes "front_matter f = Post md"
    and "\<forall>i \<in> set (recorded (all_items f)). snd (run_hooks i) = None"
  shows "serialize_as_front_matter f =
     (f\<lparr>groups := map step_group (groups f),
        front_matter := Post (write_entries (map entry (recorded (all_items f)))
                               (md(''form_name'' \<mapsto> Str (form_name f))))\<rparr>,
      Inr (write_entries (map entry (recorded (all_items f)))
             (md(''form_name'' \<mapsto> Str (form_name f)))))"
proof -
  from assms(2) have "\<forall>i \<in> set (recorded (concat (map items (groups f)))). snd (run_hooks i) = None"
    by (simp add: all_items_def)
  from groups_loop_success [OF this, of "md(''form_name'' \<mapsto> Str (form_name f))"] assms(1)
  show ?thesis
    by (simp add: serialize_as_front_matter_def all_items_def)
qed


lemma blog_form_recorded:
  "recorded (all_items (blog_form D)) =
     [\<lparr>item_name = ''Title'', item_value = Str ''Coffee'', placeholder = [],
       html_type = ''text'', item_id = default_item_id D, hooks = []\<rparr>,
      \<lparr>item_name = ''Body'', item_value = Str ''This is a test!'', placeholder = [],
       html_type = ''textarea'', item_id = default_item_id D, hooks = []\<rparr>,
      \<lparr>item_name = ''Slug'', item_value = Str ''POST-EXAMPLE'', placeholder = [],
       html_type = ''text'', item_id = default_item_id D, hooks = [''slugify'']\<rparr>]"
  by (simp add: blog_form_items recorded_def CONTROL_TYPES_def)

lemma run_hooks_blog_slug:
  "run_hooks \<lparr>item_name = ''Slug'', item_value = Str ''POST-EXAMPLE'', placeholder = [],
       html_type = ''text'', item_id = x, hooks = [''slugify'']\<rparr>
   = (\<lparr>item_name = ''Slug'', item_value = Str ''post-example'', placeholder = [],
       html_type = ''text'', item_id = x, hooks = [''slugify'']\<rparr>, None)"
  by (simp add: run_hooks_def globals_slugify slugify_examples)

text \<open>
  C1, as stated, fails: when two items have the same lowercased name, the key holds the
  value of the later one, so the mapping does not map the key of the first item to the
  value of the first item.
\<close>

theorem front_matter_last_write_counterexample:
  "snd (serialize_as_front_matter address_form)
     = Inr [''form_name'' \<mapsto> Str ''Order'', ''name'' \<mapsto> Str ''Bob'']"
  by (simp add: address_form_def serialize_as_front_matter_def CONTROL_TYPES_def run_hooks_def
      lower_examples)

text \<open>
  C1, amended. For a form whose stored front matter is a mapping and whose items other
  than submit have hooks that all run, \<^verbatim>\<open>_serialize_as_front_matter\<close> returns the
  stored mapping with these writes made in order, a later write replacing an earlier one
  to the same key: \<^verbatim>\<open>form_name\<close> gets the name of the form, then every item whose
  \<^verbatim>\<open>html_type\<close> is not \<^verbatim>\<open>submit\<close>, in group and item order, writes its value after
  its hooks under its lowercased name. So a key that is neither \<^verbatim>\<open>form_name\<close> nor the
  lowercased name of such an item is as stored (a submit item writes nothing);
  \<^verbatim>\<open>form_name\<close> holds the name of the form unless such an item is named so; and
  when the lowercased names of these items are distinct, each of them maps to the value
  of its item after the hooks.
\<close>

theorem front_matter_writes:
  assumes "front_matter f = Post md"
    and "\<forall>i \<in> set (recorded (all_items f)). snd (run_hooks i) = None"
  shows "\<exists>m. snd (serialize_as_front_matter f) = Inr m
     \<and> m = write_entries (map entry (recorded (all_items f)))
             (md(''form_name'' \<mapsto> Str (form_name f)))
     \<and> (\<forall>k. k \<noteq> ''form_name'' \<and> k \<notin> (lower \<circ> item_name) ` set (recorded (all_items f))
            \<longrightarrow> m k = md k)
     \<and> (''form_name'' \<notin> (lower \<circ> item_name) ` set (recorded (all_items f))
            \<longrightarrow> m ''form_name'' = Some (Str (form_name f)))
     \<and> (distinct (map (lower \<circ> item_name) (recorded (all_items f)))
            \<longrightarrow> (\<forall>i \<in> set (recorded (all_items f)).
                   m (lower (item_name i)) = Some (item_value (hooked i))))"
proof -
  let ?es = "map entry (recorded (all_items f))"
  let ?init = "md(''form_name'' \<mapsto> Str (form_name f))"
  let ?m = "write_entries ?es ?init"
  have keys: "map fst ?es = map (lower \<circ> item_name) (recorded (all_items f))"
    by (simp add: entry_def)
  then have keyset: "fst ` set ?es = (lower \<circ> item_name) ` set (recorded (all_items f))"
    by (metis list.set_map)
  have a: "snd (serialize_as_front_matter f) = Inr ?m"
    using serialize_success [OF assms] by simp
  have b: "k \<noteq> ''form_name'' \<and> k \<notin> (lower \<circ> item_name) ` set (recorded (all_items f))
            \<longrightarrow> ?m k = md k" for k
    using write_entries_other [where k = k and es = ?es and md = ?init] keyset by simp
  have c: "''form_name'' \<notin> (lower \<circ> item_name) ` set (recorded (all_items f))
            \<longrightarrow> ?m ''form_name'' = Some (Str (form_name f))"
    using write_entries_other [where k = "''form_name''" and es = ?es and md = ?init] keyset
    by simp
  have d: "distinct (map (lower \<circ> item_name) (recorded (all_items f)))
            \<longrightarrow> (\<forall>i \<in> set (recorded (all_items f)).
                   ?m (lower (item_name i)) = Some (item_value (hooked i)))"
  proof (intro impI ballI)
    fix i
    assume dist: "distinct (map (lower \<circ> item_name) (recorded (all_items f)))"
      and i: "i \<in> set (recorded (all_items f))"
    from dist have "distinct (map fst ?es)" unfolding keys .
    moreover from i have "(lower (item_name i), item_value (hooked i)) \<in> set ?es"
      by (auto simp: entry_def)
    ultimately show "?m (lower (item_name i)) = Some (item_value (hooked i))"
      by (rule write_entries_distinct)
  qed
  from a b c d show ?thesis by blast
qed

text \<open>
  The form of the example specification: the keys \<^verbatim>\<open>form_name\<close>, \<^verbatim>\<open>title\<close>,
  \<^verbatim>\<open>body\<close> and \<^verbatim>\<open>slug\<close> are written, and \<^verbatim>\<open>publish\<close> is not.
\<close>

theorem front_matter_writes_witness:
  "\<exists>m. snd (serialize_as_front_matter (blog_form example_defaults)) = Inr m
     \<and> m ''form_name'' = Some (Str ''Publish a Blog Post'')
     \<and> m ''title'' = Some (Str ''Coffee'')
     \<and> m ''body'' = Some (Str ''This is a test!'')
     \<and> m ''slug'' = Some (Str ''post-example'')
     \<and> m ''publish'' = None"
proof -
  let ?f = "blog_form example_defaults"
  have fm: "front_matter ?f = Post Map.empty"
    by (simp add: blog_form_def example_defaults_def)
  have ok: "\<forall>i \<in> set (recorded (all_items ?f)). snd (run_hooks i) = None"
    by (simp add: blog_form_recorded run_hooks_no_hooks run_hooks_blog_slug)
  from front_matter_writes [OF fm ok] obtain m where
    r: "snd (serialize_as_front_matter ?f) = Inr m"
    and m: "m = write_entries (map entry (recorded (all_items ?f)))
             (Map.empty(''form_name'' \<mapsto> Str (form_name ?f)))"
    by blast
  have n: "form_name ?f = ''Publish a Blog Post''" by (simp add: blog_form_def)
  have "m ''form_name'' = Some (Str ''Publish a Blog Post'')"
    "m ''title'' = Some (Str ''Coffee'')"
    "m ''body'' = Some (Str ''This is a test!'')"
    "m ''slug'' = Some (Str ''post-example'')"
    "m ''publish'' = None"
    unfolding m n blog_form_recorded
    by (simp_all add: write_entries_def entry_def hooked_def run_hooks_no_hooks
        run_hooks_blog_slug lower_examples)
  with r show ?thesis by blast
qed

subsection \<open>Control items\<close>

lemma items_loop_control_unchanged:
  "front_matter_items_loop its md = (its', md', e) \<Longrightarrow>
     list_all2 (\<lambda>i i'. html_type i \<in> CONTROL_TYPES \<longrightarrow> i' = i) its its'"
proof (induction its arbitrary: md its' md' e)
  case Nil
  then show ?case by simp
next
  case (Cons i its)
  show ?case
  proof (cases "html_type i \<in> CONTROL_TYPES")
    case True
    obtain r m x where r: "front_matter_items_loop its md = (r, m, x)"
      by (cases "front_matter_items_loop its md")
    with True Cons.prems have "its' = i # r" by simp
    with Cons.IH [OF r] show ?thesis by simp
  next
    case False
    obtain i' x where h: "run_hooks i = (i', x)" by (cases "run_hooks i")
    show ?thesis
    proof (cases x)
      case (Some err)
      with False h Cons.prems have "its' = i' # its" by simp
      moreover have "list_all2 (\<lambda>i i'. html_type i \<in> CONTROL_TYPES \<longrightarrow> i' = i) its its"
        by (simp add: list_all2_same)
      ultimately show ?thesis using False by simp
    next
      case None
      obtain r m y where r:
        "front_matter_items_loop its (md(lower (item_name i') \<mapsto> item_value i')) = (r, m, y)"
        by (cases "front_matter_items_loop its (md(lower (item_name i') \<mapsto> item_value i'))")
      with False h None Cons.prems have "its' = i' # r" by simp
      with Cons.IH [OF r] False show ?thesis by simp
    qed
  qed
qed

lemma groups_loop_control_unchanged:
  "front_matter_groups_loop gs md = (gs', md', e) \<Longrightarrow>
     list_all2 (\<lambda>g g'. group_name g' = group_name g
        \<and> list_all2 (\<lambda>i i'. html_type i \<in> CONTROL_TYPES \<longrightarrow> i' = i) (items g) (items g'))
       gs gs'"
proof (induction gs arbitrary: md gs' md' e)
  case Nil
  then show ?case by simp
next
  case (Cons g gs)
  obtain its' m x where r: "front_matter_items_loop (items g) md = (its', m, x)"
    by (cases "front_matter_items_loop (items g) md")
  note u = items_loop_control_unchanged [OF r]
  show ?case
  proof (cases x)
    case (Some err)
    with r Cons.prems have "gs' = g\<lparr>items := its'\<rparr> # gs" by simp
    moreover have "list_all2 (\<lambda>g g'. group_name g' = group_name g
        \<and> list_all2 (\<lambda>i i'. html_type i \<in> CONTROL_TYPES \<longrightarrow> i' = i) (items g) (items g'))
       gs gs"
      by (simp add: list_all2_same)
    ultimately show ?thesis using u by simp
  next
    case None
    obtain rs m' y where rs: "front_matter_groups_loop gs m = (rs, m', y)"
      by (cases "front_matter_groups_loop gs m")
    with r None Cons.prems have "gs' = g\<lparr>items := its'\<rparr> # rs" by simp
    with Cons.IH [OF rs] u show ?thesis by simp
  qed
qed

lemma with_control_hooks_simps:
  "html_type i \<in> CONTROL_TYPES \<Longrightarrow> with_control_hooks hs i = i\<lparr>hooks := hs\<rparr>"
  "html_type i \<notin> CONTROL_TYPES \<Longrightarrow> with_control_hooks hs i = i"
  "html_type (with_control_hooks hs i) = html_type i"
  by (simp_all add: with_control_hooks_def)

lemma run_hooks_html_type: "run_hooks i = (i', x) \<Longrightarrow> html_type i' = html_type i"
  using hooked_frame(2) [of i] by (simp add: hooked_def)

lemma items_loop_control_hooks:
  "front_matter_items_loop its md = (its', md', e) \<Longrightarrow>
   front_matter_items_loop (map (with_control_hooks hs) its) md
     = (map (with_control_hooks hs) its', md', e)"
proof (induction its arbitrary: md its' md' e)
  case Nil
  then show ?case by simp
next
  case (Cons i its)
  show ?case
  proof (cases "html_type i \<in> CONTROL_TYPES")
    case True
    obtain r m x where r: "front_matter_items_loop its md = (r, m, x)"
      by (cases "front_matter_items_loop its md")
    with True Cons.prems have e: "its' = i # r" "md' = m" "e = x" by simp_all
    from Cons.IH [OF r] True e show ?thesis
      by (simp add: with_control_hooks_simps)
  next
    case False
    obtain i' x where h: "run_hooks i = (i', x)" by (cases "run_hooks i")
    from run_hooks_html_type [OF h] False have nc: "html_type i' \<notin> CONTROL_TYPES" by simp
    show ?thesis
    proof (cases x)
      case (Some err)
      with False h Cons.prems have "its' = i' # its" "md' = md" "e = Some err" by simp_all
      with False h Some nc show ?thesis by (simp add: with_control_hooks_simps)
    next
      case None
      obtain r m y where r:
        "front_matter_items_loop its (md(lower (item_name i') \<mapsto> item_value i')) = (r, m, y)"
        by (cases "front_matter_items_loop its (md(lower (item_name i') \<mapsto> item_value i'))")
      with False h None Cons.prems have e: "its' = i' # r" "md' = m" "e = y" by simp_all
      have ih: "front_matter_items_loop (map (with_control_hooks hs) its)
                  (md(lower (item_name i') \<mapsto> item_value i'))
                = (map (with_control_hooks hs) r, m, y)"
        by (rule Cons.IH [OF r])
      from ih False h None nc e show ?thesis
        by (simp add: with_control_hooks_simps)
    qed
  qed
qed

lemma groups_loop_control_hooks:
  "front_matter_groups_loop gs md = (gs', md', e) \<Longrightarrow>
   front_matter_groups_loop
       (map (\<lambda>g. g\<lparr>items := map (with_control_hooks hs) (items g)\<rparr>) gs) md
     = (map (\<lambda>g. g\<lparr>items := map (with_control_hooks hs) (items g)\<rparr>) gs', md', e)"
proof (induction gs arbitrary: md gs' md' e)
  case Nil
  then show ?case by simp
next
  case (Cons g gs)
  obtain its' m x where r: "front_matter_items_loop (items g) md = (its', m, x)"
    by (cases "front_matter_items_loop (items g) md")
  note u = items_loop_control_hooks [OF r, of hs]
  show ?case
  proof (cases x)
    case (Some err)
    with r Cons.prems have "gs' = g\<lparr>items := its'\<rparr> # gs" "md' = m" "e = Some err"
      by simp_all
    with u Some show ?thesis by simp
  next
    case None
    obtain rs m' y where rs: "front_matter_groups_loop gs m = (rs, m', y)"
      by (cases "front_matter_groups_loop gs m")
    with r None Cons.prems have "gs' = g\<lparr>items := its'\<rparr> # rs" "md' = m'" "e = y"
      by simp_all
    with Cons.IH [OF rs] u None show ?thesis by simp
  qed
qed

text \<open>
  C10. \<^verbatim>\<open>_serialize_as_front_matter\<close> leaves every item whose \<^verbatim>\<open>html_type\<close> is
  \<^verbatim>\<open>submit\<close> as it is, whether the call returns or raises, and its hooks are never
  run: what the call returns or raises is the same whatever hook list the submit items
  carry, and so is the form it leaves, up to those hook lists.
\<close>

theorem control_items_untouched:
  "list_all2 (\<lambda>g g'. group_name g' = group_name g
        \<and> list_all2 (\<lambda>i i'. html_type i \<in> CONTROL_TYPES \<longrightarrow> i' = i) (items g) (items g'))
     (groups f) (groups (fst (serialize_as_front_matter f)))
   \<and> snd (serialize_as_front_matter (form_with_control_hooks hs f))
       = snd (serialize_as_front_matter f)
   \<and> fst (serialize_as_front_matter (form_with_control_hooks hs f))
       = form_with_control_hooks hs (fst (serialize_as_front_matter f))"
proof (cases "front_matter f")
  case (Text s)
  then show ?thesis
    by (simp add: serialize_as_front_matter_def form_with_control_hooks_def list_all2_same)
next
  case (Post md)
  obtain gs' md' e where
    r: "front_matter_groups_loop (groups f) (md(''form_name'' \<mapsto> Str (form_name f))) = (gs', md', e)"
    by (cases "front_matter_groups_loop (groups f) (md(''form_name'' \<mapsto> Str (form_name f)))")
  note a = groups_loop_control_unchanged [OF r]
  note b = groups_loop_control_hooks [OF r, of hs]
  show ?thesis
  proof (cases e)
    case None
    with Post r a b show ?thesis
      by (simp add: serialize_as_front_matter_def form_with_control_hooks_def)
  next
    case (Some err)
    with Post r a b show ?thesis
      by (simp add: serialize_as_front_matter_def form_with_control_hooks_def)
  qed
qed

text \<open>
  The submit button of the form carries a hook name that is bound to nothing: the call
  returns all the same and leaves the button as it was.
\<close>

theorem control_items_untouched_witness:
  "items (groups (fst (serialize_as_front_matter slug_form)) ! 0) ! 1 = publish_item
   \<and> snd (serialize_as_front_matter (form_with_control_hooks [''slugify''] slug_form))
       = snd (serialize_as_front_matter slug_form)"
proof -
  let ?f' = "fst (serialize_as_front_matter slug_form)"
  let ?P = "\<lambda>i i'. html_type i \<in> CONTROL_TYPES \<longrightarrow> i' = i"
  let ?Q = "\<lambda>g g'. group_name g' = group_name g \<and> list_all2 ?P (items g) (items g')"
  note t = control_items_untouched [of slug_form "[''slugify'']"]
  then have l: "list_all2 ?Q (groups slug_form) (groups ?f')" by blast
  have "?Q (groups slug_form ! 0) (groups ?f' ! 0)"
    by (rule list_all2_nthD [OF l]) (simp add: slug_form_def)
  then have "list_all2 ?P [slug_item, publish_item] (items (groups ?f' ! 0))"
    by (simp add: slug_form_def)
  then have "?P ([slug_item, publish_item] ! 1) (items (groups ?f' ! 0) ! 1)"
    by (rule list_all2_nthD) simp
  then have "items (groups ?f' ! 0) ! 1 = publish_item"
    by (simp add: publish_item_def CONTROL_TYPES_def)
  with t show ?thesis by blast
qed

subsection \<open>Two calls\<close>












section \<open>Loading a specification and reading it back\<close>

lemma str_list_total: "list_all is_str hs \<Longrightarrow> \<exists>ss. str_list hs = Some ss"
  by (induction hs) (auto simp: is_str_def split: json.splits)

lemma str_list_reads_back: "str_list hs = Some ss \<Longrightarrow> hs = map JStr ss"
  by (induction hs arbitrary: ss) (auto split: json.splits option.splits)

lemma optional_str_total:
  "str_or_absent d key \<Longrightarrow> \<exists>x. optional_str d key dflt = Some x"
  by (auto simp: str_or_absent_def optional_str_def split: option.splits json.splits)

lemma optional_str_reads_back:
  "optional_str d key dflt = Some x \<Longrightarrow> str_reads_back d key dflt x"
  by (auto simp: optional_str_def str_reads_back_def split: option.splits json.splits)

lemma required_str_reads_back:
  "required_str d key = Some x \<Longrightarrow> map_of d key = Some (JStr x)"
  by (auto simp: required_str_def split: option.splits json.splits)

lemma required_str_total:
  "(case map_of d key of Some (JStr n) \<Rightarrow> True | _ \<Rightarrow> False) \<Longrightarrow> \<exists>x. required_str d key = Some x"
  by (auto simp: required_str_def split: option.splits json.splits)

lemma hooks_field_total:
  "(case map_of d ''hooks'' of
      None \<Rightarrow> True | Some (JList hs) \<Rightarrow> list_all is_str hs | Some _ \<Rightarrow> False)
   \<Longrightarrow> \<exists>h. hooks_field d = Some h"
  using str_list_total by (auto simp: hooks_field_def split: option.splits json.splits)

lemma hooks_field_reads_back:
  "hooks_field d = Some h \<Longrightarrow>
     (case map_of d ''hooks'' of None \<Rightarrow> h = [] | Some j \<Rightarrow> j = JList (map JStr h))"
  using str_list_reads_back by (auto simp: hooks_field_def split: option.splits json.splits)

lemma validate_FormItem_total:
  assumes "item_specification j"
  shows "\<exists>i. validate_FormItem D j = Inr i"
proof -
  from assms obtain d where j: "j = JDict d"
    by (cases j) (simp_all add: item_specification_def)
  with assms have a: "(case map_of d ''name'' of Some (JStr n) \<Rightarrow> True | _ \<Rightarrow> False)"
    "str_or_absent d ''value''" "str_or_absent d ''placeholder''"
    "str_or_absent d ''html_type''" "str_or_absent d ''id''"
    "(case map_of d ''hooks'' of
        None \<Rightarrow> True | Some (JList hs) \<Rightarrow> list_all is_str hs | Some _ \<Rightarrow> False)"
    by (simp_all add: item_specification_def)
  from required_str_total [OF a(1)] obtain n where n: "required_str d ''name'' = Some n" ..
  from optional_str_total [OF a(2)] obtain v where v: "optional_str d ''value'' [] = Some v" ..
  from optional_str_total [OF a(3)] obtain p where p: "optional_str d ''placeholder'' [] = Some p" ..
  from optional_str_total [OF a(4)] obtain t where t: "optional_str d ''html_type'' ''text'' = Some t" ..
  from optional_str_total [OF a(5)] obtain i where
    i: "optional_str d ''id'' (default_item_id D) = Some i" ..
  from hooks_field_total [OF a(6)] obtain h where h: "hooks_field d = Some h" ..
  from j n v p t i h show ?thesis by (simp add: validate_FormItem_def)
qed

lemma validate_FormItem_fields:
  assumes "validate_FormItem D (JDict d) = Inr x"
  shows "required_str d ''name'' = Some (item_name x)"
    "\<exists>v. item_value x = Str v \<and> optional_str d ''value'' [] = Some v"
    "optional_str d ''placeholder'' [] = Some (placeholder x)"
    "optional_str d ''html_type'' ''text'' = Some (html_type x)"
    "optional_str d ''id'' (default_item_id D) = Some (item_id x)"
    "hooks_field d = Some (hooks x)"
  using assms
  by (auto simp: validate_FormItem_def split: option.splits)

lemma validate_FormItem_reads_back:
  assumes "validate_FormItem D j = Inr x"
  shows "item_reads_back D j x"
proof -
  from assms obtain d where j: "j = JDict d"
    by (cases j) (simp_all add: validate_FormItem_def)
  note f = validate_FormItem_fields [OF assms [unfolded j]]
  from f(2) obtain v where v: "item_value x = Str v" "optional_str d ''value'' [] = Some v"
    by blast
  show ?thesis
    using required_str_reads_back [OF f(1)] optional_str_reads_back [OF v(2)] v(1)
      optional_str_reads_back [OF f(3)] optional_str_reads_back [OF f(4)]
      optional_str_reads_back [OF f(5)] hooks_field_reads_back [OF f(6)]
    by (simp add: item_reads_back_def j)
qed

lemma validate_items_total:
  "list_all item_specification js \<Longrightarrow> \<exists>its. validate_items D js = Inr its"
proof (induction js)
  case Nil
  show ?case by simp
next
  case (Cons j js)
  then obtain i its where "validate_FormItem D j = Inr i" "validate_items D js = Inr its"
    using validate_FormItem_total [of j D] by auto
  then show ?case by simp
qed

lemma validate_items_reads_back:
  "validate_items D js = Inr its \<Longrightarrow> list_all2 (item_reads_back D) js its"
proof (induction js arbitrary: its)
  case Nil
  then show ?case by simp
next
  case (Cons j js)
  from Cons.prems obtain i rest where
    r: "validate_FormItem D j = Inr i" "validate_items D js = Inr rest" "its = i # rest"
    by (auto split: sum.splits)
  from Cons.IH [OF r(2)] validate_FormItem_reads_back [OF r(1)] r(3) show ?case by simp
qed

lemma validate_Group_total:
  assumes "group_specification j"
  shows "\<exists>g. validate_Group D j = Inr g"
proof -
  from assms obtain d where j: "j = JDict d"
    by (cases j) (simp_all add: group_specification_def)
  with assms have a: "(case map_of d ''name'' of Some (JStr n) \<Rightarrow> True | _ \<Rightarrow> False)"
    and b: "(case map_of d ''items'' of
                Some (JList its) \<Rightarrow> list_all item_specification its | _ \<Rightarrow> False)"
    by (simp_all add: group_specification_def)
  from required_str_total [OF a] obtain n where n: "required_str d ''name'' = Some n" ..
  from b obtain js where js: "map_of d ''items'' = Some (JList js)"
    "list_all item_specification js"
    by (auto split: option.splits json.splits)
  from validate_items_total [OF js(2)] obtain its where "validate_items D js = Inr its" ..
  with j n js(1) show ?thesis by (simp add: validate_Group_def)
qed

lemma validate_Group_reads_back:
  assumes "validate_Group D j = Inr g"
  shows "group_reads_back D j g"
proof -
  from assms obtain d where j: "j = JDict d"
    by (cases j) (simp_all add: validate_Group_def)
  from assms j obtain n js its where
    r: "required_str d ''name'' = Some n" "map_of d ''items'' = Some (JList js)"
       "validate_items D js = Inr its" "g = \<lparr>group_name = n, items = its\<rparr>"
    by (auto simp: validate_Group_def split: option.splits json.splits sum.splits)
  from required_str_reads_back [OF r(1)] validate_items_reads_back [OF r(3)] r(2) r(4) j
  show ?thesis by (simp add: group_reads_back_def)
qed

lemma validate_groups_total:
  "list_all group_specification js \<Longrightarrow> \<exists>gs. validate_groups D js = Inr gs"
proof (induction js)
  case Nil
  show ?case by simp
next
  case (Cons j js)
  then obtain g gs where "validate_Group D j = Inr g" "validate_groups D js = Inr gs"
    using validate_Group_total [of j D] by auto
  then show ?case by simp
qed

lemma validate_groups_reads_back:
  "validate_groups D js = Inr gs \<Longrightarrow> list_all2 (group_reads_back D) js gs"
proof (induction js arbitrary: gs)
  case Nil
  then show ?case by simp
next
  case (Cons j js)
  from Cons.prems obtain g rest where
    r: "validate_Group D j = Inr g" "validate_groups D js = Inr rest" "gs = g # rest"
    by (auto split: sum.splits)
  from Cons.IH [OF r(2)] validate_Group_reads_back [OF r(1)] r(3) show ?case by simp
qed

lemma load_total:
  assumes "form_specification s"
  shows "\<exists>f. load_from_specification D s = Inr f"
proof -
  from assms obtain d where s: "s = JDict d"
    by (cases s) (simp_all add: form_specification_def)
  with assms have a: "(case map_of d ''name'' of Some (JStr n) \<Rightarrow> True | _ \<Rightarrow> False)"
    and b: "(case map_of d ''groups'' of
                Some (JList gs) \<Rightarrow> list_all group_specification gs | _ \<Rightarrow> False)"
    and c: "str_or_absent d ''front_matter''" and e: "str_or_absent d ''id''"
    by (simp_all add: form_specification_def)
  from required_str_total [OF a] obtain n where n: "required_str d ''name'' = Some n" ..
  from b obtain js where js: "map_of d ''groups'' = Some (JList js)"
    "list_all group_specification js"
    by (auto split: option.splits json.splits)
  from validate_groups_total [OF js(2)] obtain gs where gs: "validate_groups D js = Inr gs" ..
  from optional_str_total [OF e] obtain i where
    i: "optional_str d ''id'' (default_form_id D) = Some i" ..
  from c consider "map_of d ''front_matter'' = None"
    | fm where "map_of d ''front_matter'' = Some (JStr fm)"
    by (auto simp: str_or_absent_def split: option.splits json.splits)
  then show ?thesis
  proof cases
    case 1
    with s n js(1) gs i show ?thesis by (simp add: load_from_specification_def)
  next
    case 2
    with s n js(1) gs i show ?thesis by (simp add: load_from_specification_def)
  qed
qed

lemma load_fields:
  assumes "load_from_specification D (JDict d) = Inr f"
  shows "required_str d ''name'' = Some (form_name f)"
    "\<exists>js. map_of d ''groups'' = Some (JList js) \<and> validate_groups D js = Inr (groups f)"
    "case map_of d ''front_matter'' of
       None \<Rightarrow> front_matter f = Post (default_metadata D)
     | Some fm \<Rightarrow> (case front_matter f of Text s \<Rightarrow> fm = JStr s | Post m \<Rightarrow> False)"
    "optional_str d ''id'' (default_form_id D) = Some (form_id f)"
  using assms
  by (auto simp: load_from_specification_def split: option.splits json.splits sum.splits)

lemma load_reads_back:
  assumes "load_from_specification D s = Inr f"
  shows "form_reads_back D s f"
proof -
  from assms obtain d where s: "s = JDict d"
    by (cases s) (simp_all add: load_from_specification_def)
  note l = load_fields [OF assms [unfolded s]]
  from l(2) obtain js where js: "map_of d ''groups'' = Some (JList js)"
    "validate_groups D js = Inr (groups f)" by blast
  from required_str_reads_back [OF l(1)] js(1) validate_groups_reads_back [OF js(2)] l(3)
    optional_str_reads_back [OF l(4)] s
  show ?thesis by (simp add: form_reads_back_def)
qed

lemma load_spec: "load_from_specification D spec = Inr (blog_form D)"
  by (simp add: spec_def load_from_specification_def validate_Group_def validate_FormItem_def
      required_str_def optional_str_def hooks_field_def blog_form_def)

text \<open>
  C6. For every specification that supplies the name, the groups and the items with
  their fields, \<^verbatim>\<open>load_from_specification\<close> returns a form, and reading the form
  back gives the values of the specification: the name, the name of each group, and each
  field of each item, in order.
\<close>

theorem load_round_trip:
  assumes "form_specification s"
  shows "\<exists>f. load_from_specification D s = Inr f \<and> form_reads_back D s f"
  using load_total [OF assms, of D] load_reads_back by blast

text \<open>The example specification loads to the expected form and reads back.\<close>

theorem load_round_trip_witness:
  "form_specification spec
   \<and> load_from_specification example_defaults spec = Inr (blog_form example_defaults)
   \<and> form_reads_back example_defaults spec (blog_form example_defaults)"
proof -
  have w: "form_specification spec"
    by (simp add: spec_def form_specification_def group_specification_def
        item_specification_def str_or_absent_def is_str_def)
  from load_round_trip [OF w, of example_defaults] load_spec [of example_defaults] w
  show ?thesis by auto
qed

text \<open>
  C4. The default of an id field is one string for all instances: two items built
  without an \<^verbatim>\<open>id\<close> have equal ids, and so have two forms built without an
  \<^verbatim>\<open>id\<close>.
\<close>

theorem default_ids_shared:
  "(validate_FormItem D (JDict a) = Inr x \<and> validate_FormItem D (JDict b) = Inr y
      \<and> map_of a ''id'' = None \<and> map_of b ''id'' = None
      \<longrightarrow> item_id x = item_id y)
   \<and> (load_from_specification D (JDict c) = Inr f \<and> load_from_specification D (JDict d) = Inr g
      \<and> map_of c ''id'' = None \<and> map_of d ''id'' = None
      \<longrightarrow> form_id f = form_id g)"
proof -
  have item: "item_id x = default_item_id D"
    if "validate_FormItem D (JDict a) = Inr x" "map_of a ''id'' = None" for a x
    using validate_FormItem_fields(5) [OF that(1)] that(2) by (simp add: optional_str_def)
  have form: "form_id f = default_form_id D"
    if "load_from_specification D (JDict c) = Inr f" "map_of c ''id'' = None" for c f
    using load_fields(4) [OF that(1)] that(2) by (simp add: optional_str_def)
  from item form show ?thesis by metis
qed

text \<open>Two items and two forms built without an id.\<close>

theorem default_ids_shared_witness:
  "validate_FormItem example_defaults (JDict [(''name'', JStr ''Title'')])
     = Inr \<lparr>item_name = ''Title'', item_value = Str [], placeholder = [],
            html_type = ''text'', item_id = ''item-uuid'', hooks = []\<rparr>
   \<and> validate_FormItem example_defaults
       (JDict [(''name'', JStr ''Body''), (''html_type'', JStr ''textarea'')])
     = Inr \<lparr>item_name = ''Body'', item_value = Str [], placeholder = [],
            html_type = ''textarea'', item_id = ''item-uuid'', hooks = []\<rparr>
   \<and> load_from_specification example_defaults
       (JDict [(''name'', JStr ''Contact''), (''groups'', JList [])])
     = Inr \<lparr>form_name = ''Contact'', groups = [], front_matter = Post Map.empty,
            form_id = ''form-uuid''\<rparr>
   \<and> load_from_specification example_defaults
       (JDict [(''name'', JStr ''Order''), (''groups'', JList [])])
     = Inr \<lparr>form_name = ''Order'', groups = [], front_matter = Post Map.empty,
            form_id = ''form-uuid''\<rparr>"
proof -
  let ?a = "[(''name'', JStr ''Title'')]"
  let ?b = "[(''name'', JStr ''Body''), (''html_type'', JStr ''textarea'')]"
  let ?c = "[(''name'', JStr ''Contact''), (''groups'', JList [])]"
  let ?d = "[(''name'', JStr ''Order''), (''groups'', JList [])]"
  let ?x = "\<lparr>item_name = ''Title'', item_value = Str [], placeholder = [],
            html_type = ''text'', item_id = ''item-uuid'', hooks = []\<rparr>"
  let ?f = "\<lparr>form_name = ''Contact'', groups = [], front_matter = Post Map.empty,
            form_id = ''form-uuid''\<rparr>"
  have x: "validate_FormItem example_defaults (JDict ?a) = Inr ?x"
    by (simp add: validate_FormItem_def required_str_def optional_str_def hooks_field_def
        example_defaults_def)
  have f: "load_from_specification example_defaults (JDict ?c) = Inr ?f"
    by (simp add: load_from_specification_def required_str_def optional_str_def
        example_defaults_def)
  obtain y where y: "validate_FormItem example_defaults (JDict ?b) = Inr y"
    "item_name y = ''Body''" "item_value y = Str []" "placeholder y = []"
    "html_type y = ''textarea''" "hooks y = []"
    by (simp add: validate_FormItem_def required_str_def optional_str_def hooks_field_def)
  obtain g where g: "load_from_specification example_defaults (JDict ?d) = Inr g"
    "form_name g = ''Order''" "groups g = []" "front_matter g = Post Map.empty"
    by (simp add: load_from_specification_def required_str_def optional_str_def
        example_defaults_def)
  from default_ids_shared [of example_defaults ?a ?x ?b y ?c ?f ?d g] x y(1) f g(1)
  have "item_id ?x = item_id y" "form_id ?f = form_id g" by simp_all
  then have "item_id y = ''item-uuid''" "form_id g = ''form-uuid''" by simp_all
  with y g have "y = \<lparr>item_name = ''Body'', item_value = Str [], placeholder = [],
            html_type = ''textarea'', item_id = ''item-uuid'', hooks = []\<rparr>"
    "g = \<lparr>form_name = ''Order'', groups = [], front_matter = Post Map.empty,
            form_id = ''form-uuid''\<rparr>"
    by simp_all
  with x y(1) f g(1) show ?thesis by simp
qed

end
